theory Spec2Isabelle
  imports Complex_Main "HOL-Library.Word"
begin

unbundle bit_operations_syntax

section \<open>Mesh messenger: the message envelope (message/message.go)\<close>

text \<open>
  A Go \<open>string\<close> is a sequence of bytes, as a HOL \<open>string\<close> is (a \<open>char\<close> is
  eight bits); a Go \<open>[]byte\<close> is a list of 8-bit words, and the conversion
  \<open>[]byte(s)\<close> copies the bytes of the string one by one.
\<close>

type_synonym byte = "8 word"

definition bytes_of_string :: "string \<Rightarrow> byte list" where
  "bytes_of_string s = map of_char s"

text \<open>
  A \<open>time.Time\<close> is kept as an instant in nanoseconds. \<open>time.Now()\<close> reads the
  clock: the functions that call it take the instant read as an argument.
\<close>

type_synonym time = int

text \<open>Go errors. The first two are the errors the specification names.\<close>

datatype error = InvalidPayload | AlreadyStarted | LibError string

text \<open>\<open>type MessageType string\<close> with its three constants.\<close>

type_synonym MessageType = string

definition TextMessage :: MessageType where
  "TextMessage = ''text''"

definition StatusMessage :: MessageType where
  "StatusMessage = ''status''"

definition DiscoveryMessage :: MessageType where
  "DiscoveryMessage = ''discovery''"

record Message =
  msg_ID :: string
  msg_Type :: MessageType
  msg_From :: string
  msg_To :: string
  msg_Timestamp :: time
  msg_Payload :: "byte list"

text \<open>
  \<open>NewTextMessage(from, to, content)\<close> returns \<open>(*Message, error)\<close>; the result is
  \<open>Inr\<close> the message when the error is \<open>nil\<close>. The argument \<open>now\<close> is what
  \<open>time.Now()\<close> returns at the call.
\<close>

definition NewTextMessage :: "time \<Rightarrow> string \<Rightarrow> string \<Rightarrow> string \<Rightarrow> error + Message" where
  "NewTextMessage now from to content =
     Inr \<lparr> msg_ID = ''temp-id'',
           msg_Type = TextMessage,
           msg_From = from,
           msg_To = to,
           msg_Timestamp = now,
           msg_Payload = bytes_of_string content \<rparr>"

text \<open>
  \<open>ToJSON\<close> hands the message to \<open>json.Marshal\<close> of Go's \<open>encoding/json\<close> and
  returns what it returns. The marshaller is a library function and is taken as an
  argument.
\<close>

definition ToJSON :: "(Message \<Rightarrow> error + byte list) \<Rightarrow> Message \<Rightarrow> error + byte list" where
  "ToJSON json_Marshal m = json_Marshal m"

section \<open>Mesh messenger: the transport (network/transport.go)\<close>

text \<open>
  A \<open>tcpTransport\<close> holds a \<open>net.Listener\<close> (\<open>nil\<close> until \<open>Listen\<close> has bound
  the address) and the address. The listener is an object of Go's \<open>net\<close> package: its
  state is a value of the type \<open>'l\<close>, and what its \<open>Close\<close> method does is an argument
  \<open>lclose\<close> of the functions that call it (the new state of the listener and the error
  returned, \<open>None\<close> for \<open>nil\<close>).
\<close>

record 'l tcpTransport =
  listener :: "'l option"
  addr :: string

definition NewTransport :: "string \<Rightarrow> error + 'l tcpTransport" where
  "NewTransport a = Inr \<lparr> listener = None, addr = a \<rparr>"

definition Close :: "('l \<Rightarrow> 'l \<times> error option) \<Rightarrow> 'l tcpTransport \<Rightarrow> 'l tcpTransport \<times> error option" where
  "Close lclose t =
     (case listener t of
        Some l \<Rightarrow> (t\<lparr>listener := Some (fst (lclose l))\<rparr>, snd (lclose l))
      | None \<Rightarrow> (t, None))"

text \<open>
  The first half of \<open>Listen\<close>: \<open>net.Listen("tcp", t.addr)\<close> either fails, and \<open>Listen\<close>
  returns the error, or yields a listener, which is stored in the transport. The
  outcome of \<open>net.Listen\<close> is the argument \<open>bound\<close>.
\<close>

definition Listen_bind :: "error + 'l \<Rightarrow> 'l tcpTransport \<Rightarrow> 'l tcpTransport \<times> error option" where
  "Listen_bind bound t =
     (case bound of
        Inl err \<Rightarrow> (t, Some err)
      | Inr l \<Rightarrow> (t\<lparr>listener := Some l\<rparr>, None))"

section \<open>Mesh messenger: peers and the node (node/peer.go, node/node.go)\<close>

type_synonym conn = nat

record Peer =
  peer_ID :: string
  peer_conn :: conn
  peer_lastSeen :: time

text \<open>\<open>NewPeer\<close> leaves the \<open>ID\<close> field at its zero value, the empty string.\<close>

definition NewPeer :: "time \<Rightarrow> conn \<Rightarrow> Peer" where
  "NewPeer now c = \<lparr> peer_ID = [], peer_conn = c, peer_lastSeen = now \<rparr>"

record 'l Node =
  node_ID :: string
  transport :: "'l tcpTransport"
  peers :: "string \<rightharpoonup> Peer"

text \<open>
  \<open>hex.EncodeToString\<close> of Go's \<open>encoding/hex\<close>: every byte \<open>v\<close> becomes the two
  characters \<open>hextable[v>>4]\<close> and \<open>hextable[v&0x0f]\<close>.
\<close>

definition hextable :: string where
  "hextable = ''0123456789abcdef''"

fun EncodeToString :: "byte list \<Rightarrow> string" where
  "EncodeToString [] = []"
| "EncodeToString (v # vs) =
     hextable ! unat (drop_bit 4 v) # hextable ! unat (v AND 0x0f) # EncodeToString vs"

text \<open>
  \<open>rand.Read(b)\<close> of \<open>crypto/rand\<close> either fails or overwrites every position of the
  buffer \<open>b\<close>. The random source is the argument \<open>src\<close>: an error, or the byte it
  delivers for each position.
\<close>

definition rand_Read :: "error + (nat \<Rightarrow> byte) \<Rightarrow> byte list \<Rightarrow> byte list \<times> error option" where
  "rand_Read src b =
     (case src of
        Inl err \<Rightarrow> (b, Some err)
      | Inr f \<Rightarrow> (map f [0..<length b], None))"

definition NewNode :: "error + (nat \<Rightarrow> byte) \<Rightarrow> error + 'l Node" where
  "NewNode src =
     (let rawID = replicate 16 (0 :: byte);
          (rawID', err) = rand_Read src rawID
      in case err of
           Some e \<Rightarrow> Inl e
         | None \<Rightarrow>
             (let ID = EncodeToString rawID'
              in case NewTransport '':8080'' of
                   Inl e \<Rightarrow> Inl e
                 | Inr t \<Rightarrow> Inr \<lparr> node_ID = ID, transport = t, peers = Map.empty \<rparr>))"

text \<open>
  The running program: the node, the goroutines that have been launched and have not
  finished, and the accepted connections that have been closed. Console output is not
  part of the state.
\<close>

datatype task = ListenTask | AcceptLoop | HandleConn conn

record 'l world =
  node :: "'l Node"
  goroutines :: "task list"
  closed_conns :: "conn set"

text \<open>\<open>Start\<close> launches \<open>n.transport.Listen()\<close> in a goroutine and returns \<open>nil\<close>.\<close>

definition Start :: "'l world \<Rightarrow> 'l world \<times> error option" where
  "Start w = (w\<lparr>goroutines := goroutines w @ [ListenTask]\<rparr>, None)"

text \<open>\<open>Stop\<close> returns what \<open>n.transport.Close()\<close> returns.\<close>

definition Stop :: "('l \<Rightarrow> 'l \<times> error option) \<Rightarrow> 'l world \<Rightarrow> 'l world \<times> error option" where
  "Stop lclose w =
     (let (t, err) = Close lclose (transport (node w))
      in (w\<lparr>node := (node w)\<lparr>transport := t\<rparr>\<rparr>, err))"

text \<open>
  A \<open>Listen\<close> goroutine runs its first half: when \<open>net.Listen\<close> fails the goroutine
  ends, otherwise it stores the listener and enters the accept loop.
\<close>

definition Listen_start :: "error + 'l \<Rightarrow> 'l world \<Rightarrow> 'l world" where
  "Listen_start bound w =
     (let (t, err) = Listen_bind bound (transport (node w));
          rest = remove1 ListenTask (goroutines w)
      in w\<lparr>node := (node w)\<lparr>transport := t\<rparr>,
            goroutines := (case err of Some e \<Rightarrow> rest | None \<Rightarrow> rest @ [AcceptLoop])\<rparr>)"

text \<open>
  One round of the accept loop: \<open>Accept\<close> fails and the loop continues, or it yields
  a connection and \<open>handleConn\<close> is launched in a goroutine.
\<close>

definition Listen_accept :: "error + conn \<Rightarrow> 'l world \<Rightarrow> 'l world" where
  "Listen_accept accepted w =
     (case accepted of
        Inl err \<Rightarrow> w
      | Inr c \<Rightarrow> w\<lparr>goroutines := goroutines w @ [HandleConn c]\<rparr>)"

text \<open>\<open>handleConn\<close> prints the remote address and closes the connection (deferred).\<close>

definition handleConn :: "conn \<Rightarrow> 'l world \<Rightarrow> 'l world" where
  "handleConn c w =
     w\<lparr>goroutines := remove1 (HandleConn c) (goroutines w),
       closed_conns := insert c (closed_conns w)\<rparr>"

text \<open>
  The states a program can reach: a node made by \<open>NewNode\<close>, then any calls of
  \<open>Start\<close> and \<open>Stop\<close> and any steps of the goroutines launched, in any order.
\<close>

inductive reachable :: "'l world \<Rightarrow> bool" where
  created: "NewNode src = Inr n \<Longrightarrow>
     reachable \<lparr> node = n, goroutines = [], closed_conns = {} \<rparr>"
| started: "reachable w \<Longrightarrow> reachable (fst (Start w))"
| stopped: "reachable w \<Longrightarrow> reachable (fst (Stop lclose w))"
| listening: "reachable w \<Longrightarrow> ListenTask \<in> set (goroutines w) \<Longrightarrow>
     reachable (Listen_start bound w)"
| accepting: "reachable w \<Longrightarrow> AcceptLoop \<in> set (goroutines w) \<Longrightarrow>
     reachable (Listen_accept accepted w)"
| handling: "reachable w \<Longrightarrow> HandleConn c \<in> set (goroutines w) \<Longrightarrow>
     reachable (handleConn c w)"

text \<open>
  The listener of Go's \<open>net\<close> package, as far as closing goes: \<open>Close\<close> on an open
  listener closes it and returns \<open>nil\<close>; on a closed one it returns the error
  ``use of closed network connection''.
\<close>

datatype tcp_listener = ListenerOpen | ListenerClosed

fun net_Close :: "tcp_listener \<Rightarrow> tcp_listener \<times> error option" where
  "net_Close ListenerOpen = (ListenerClosed, None)"
| "net_Close ListenerClosed =
     (ListenerClosed, Some (LibError ''use of closed network connection''))"

section \<open>Web application: the body age estimator (backend/utils/bodyAgeCalculator.js)\<close>

subsection \<open>JavaScript numbers\<close>

text \<open>
  A JavaScript number is a binary64 value: \<open>NaN\<close>, an infinity, or a finite number,
  kept as the real it denotes. \<open>Fin 0\<close> stands for both zeros: they are equal, both
  falsy, and differ only as divisors; the one divisor of the program that can be zero
  is a square, which is never the negative zero.

  Every arithmetic operation returns the exact result rounded to binary64. The
  rounding is the argument \<open>rd\<close> of the operations: it gives the number a real result
  is rounded to (an infinity on overflow). What the operations do at \<open>NaN\<close>, at the
  infinities and at a zero divisor does not depend on it. The rounding of binary64
  itself is \<open>b64\<close> below; \<open>Fin\<close> as a rounding is exact arithmetic.
\<close>

datatype jsnum = NaN | PInf | NInf | Fin real

fun js_neg :: "jsnum \<Rightarrow> jsnum" where
  "js_neg NaN = NaN"
| "js_neg PInf = NInf"
| "js_neg NInf = PInf"
| "js_neg (Fin a) = Fin (- a)"

fun js_add :: "(real \<Rightarrow> jsnum) \<Rightarrow> jsnum \<Rightarrow> jsnum \<Rightarrow> jsnum" where
  "js_add rd NaN y = NaN"
| "js_add rd x NaN = NaN"
| "js_add rd PInf NInf = NaN"
| "js_add rd NInf PInf = NaN"
| "js_add rd PInf y = PInf"
| "js_add rd NInf y = NInf"
| "js_add rd x PInf = PInf"
| "js_add rd x NInf = NInf"
| "js_add rd (Fin a) (Fin b) = rd (a + b)"

definition js_sub :: "(real \<Rightarrow> jsnum) \<Rightarrow> jsnum \<Rightarrow> jsnum \<Rightarrow> jsnum" where
  "js_sub rd x y = js_add rd x (js_neg y)"

fun js_mul :: "(real \<Rightarrow> jsnum) \<Rightarrow> jsnum \<Rightarrow> jsnum \<Rightarrow> jsnum" where
  "js_mul rd NaN y = NaN"
| "js_mul rd x NaN = NaN"
| "js_mul rd PInf PInf = PInf"
| "js_mul rd PInf NInf = NInf"
| "js_mul rd NInf PInf = NInf"
| "js_mul rd NInf NInf = PInf"
| "js_mul rd PInf (Fin b) = (if b = 0 then NaN else if 0 < b then PInf else NInf)"
| "js_mul rd NInf (Fin b) = (if b = 0 then NaN else if 0 < b then NInf else PInf)"
| "js_mul rd (Fin a) PInf = (if a = 0 then NaN else if 0 < a then PInf else NInf)"
| "js_mul rd (Fin a) NInf = (if a = 0 then NaN else if 0 < a then NInf else PInf)"
| "js_mul rd (Fin a) (Fin b) = rd (a * b)"

fun js_div :: "(real \<Rightarrow> jsnum) \<Rightarrow> jsnum \<Rightarrow> jsnum \<Rightarrow> jsnum" where
  "js_div rd NaN y = NaN"
| "js_div rd x NaN = NaN"
| "js_div rd PInf PInf = NaN"
| "js_div rd PInf NInf = NaN"
| "js_div rd NInf PInf = NaN"
| "js_div rd NInf NInf = NaN"
| "js_div rd PInf (Fin b) = (if 0 \<le> b then PInf else NInf)"
| "js_div rd NInf (Fin b) = (if 0 \<le> b then NInf else PInf)"
| "js_div rd (Fin a) PInf = Fin 0"
| "js_div rd (Fin a) NInf = Fin 0"
| "js_div rd (Fin a) (Fin b) =
     (if b = 0 then (if a = 0 then NaN else if 0 < a then PInf else NInf)
      else rd (a / b))"

text \<open>\<open>x <= y\<close> on numbers: false when either side is \<open>NaN\<close>.\<close>

fun js_le :: "jsnum \<Rightarrow> jsnum \<Rightarrow> bool" where
  "js_le NaN y = False"
| "js_le x NaN = False"
| "js_le NInf y = True"
| "js_le x PInf = True"
| "js_le PInf y = False"
| "js_le x NInf = False"
| "js_le (Fin a) (Fin b) = (a \<le> b)"

text \<open>\<open>Math.max\<close> of two numbers: \<open>NaN\<close> when either is \<open>NaN\<close>, else the larger.\<close>

fun Math_max :: "jsnum \<Rightarrow> jsnum \<Rightarrow> jsnum" where
  "Math_max NaN y = NaN"
| "Math_max x NaN = NaN"
| "Math_max PInf y = PInf"
| "Math_max x PInf = PInf"
| "Math_max NInf y = y"
| "Math_max x NInf = x"
| "Math_max (Fin a) (Fin b) = Fin (max a b)"

text \<open>
  \<open>Math.round\<close>: the nearest integer, a tie going towards \<open>+\<infinity>\<close>; \<open>NaN\<close> and the
  infinities are returned as they are.
\<close>

fun Math_round :: "jsnum \<Rightarrow> jsnum" where
  "Math_round (Fin a) = Fin (of_int \<lfloor>a + 1 / 2\<rfloor>)"
| "Math_round x = x"

subsection \<open>The rounding of binary64\<close>

text \<open>
  Binary64 numbers are the integers of magnitude up to \<open>2 ^ 53\<close> times a power of two
  from \<open>2 ^ -1074\<close> to \<open>2 ^ 971\<close>. A real is rounded to the nearest of them, a tie going
  to the one with the even integer, and to an infinity from \<open>2 ^ 1024\<close> on.

  \<open>normalise m\<close> writes a magnitude \<open>m\<close> as a product \<open>m' * s\<close> in which \<open>s\<close> is the
  power of two that neighbouring binary64 numbers around \<open>m\<close> are apart: it halves
  \<open>m\<close> while it is \<open>2 ^ 53\<close> or more (972 halvings reach \<open>2 ^ 1024\<close>, where the result
  is an infinity), or doubles it while it is below \<open>2 ^ 52\<close>, at most 1074 times (the
  subnormal numbers are \<open>2 ^ -1074\<close> apart). \<open>b64\<close> then rounds \<open>m'\<close> to an integer.
\<close>

definition round_half_even :: "real \<Rightarrow> int" where
  "round_half_even y =
     (let f = \<lfloor>y\<rfloor>; d = y - of_int f
      in if d < 1 / 2 then f else if 1 / 2 < d then f + 1 else if even f then f else f + 1)"

fun scale_down :: "nat \<Rightarrow> real \<Rightarrow> real \<Rightarrow> real \<times> real" where
  "scale_down 0 m s = (m, s)"
| "scale_down (Suc k) m s = (if 2 ^ 53 \<le> m then scale_down k (m / 2) (s * 2) else (m, s))"

fun scale_up :: "nat \<Rightarrow> real \<Rightarrow> real \<Rightarrow> real \<times> real" where
  "scale_up 0 m s = (m, s)"
| "scale_up (Suc k) m s = (if m < 2 ^ 52 then scale_up k (m * 2) (s / 2) else (m, s))"

definition normalise :: "real \<Rightarrow> real \<times> real" where
  "normalise m = (if 2 ^ 53 \<le> m then scale_down 972 m 1 else scale_up 1074 m 1)"

definition b64 :: "real \<Rightarrow> jsnum" where
  "b64 x =
     (if x = 0 then Fin 0
      else
        let (m, s) = normalise \<bar>x\<bar>;
            r = of_int (round_half_even m) * s
        in if 2 ^ 1024 \<le> r then (if 0 < x then PInf else NInf)
           else Fin (if 0 < x then r else - r))"

subsection \<open>Arguments\<close>

text \<open>
  The function documents \<open>age\<close>, \<open>height\<close> and \<open>weight\<close> as numbers and \<open>gender\<close> as a
  string. An argument is a value of its documented type, or is absent: \<open>undefined\<close>
  or \<open>null\<close>.
\<close>

datatype 'a jsarg = Undefined | Null | Val 'a

datatype js_error = TypeError

text \<open>Truthiness: \<open>!x\<close> is the negation of \<open>ToBoolean x\<close>.\<close>

fun ToBoolean_num :: "jsnum jsarg \<Rightarrow> bool" where
  "ToBoolean_num Undefined = False"
| "ToBoolean_num Null = False"
| "ToBoolean_num (Val NaN) = False"
| "ToBoolean_num (Val (Fin a)) = (a \<noteq> 0)"
| "ToBoolean_num (Val x) = True"

fun ToBoolean_str :: "string jsarg \<Rightarrow> bool" where
  "ToBoolean_str Undefined = False"
| "ToBoolean_str Null = False"
| "ToBoolean_str (Val s) = (s \<noteq> [])"

text \<open>The number an operand of \<open><=\<close> or of an arithmetic operator is converted to.\<close>

fun ToNumber :: "jsnum jsarg \<Rightarrow> jsnum" where
  "ToNumber Undefined = NaN"
| "ToNumber Null = Fin 0"
| "ToNumber (Val x) = x"

text \<open>
  \<open>s.toLowerCase()\<close>: the letters \<open>A\<close> to \<open>Z\<close> become \<open>a\<close> to \<open>z\<close>. Characters
  outside ASCII are left alone: none of them has an ASCII letter as its lower case, so
  they never decide a comparison with \<open>"male"\<close>. On \<open>undefined\<close> and \<open>null\<close> the method
  call throws a \<open>TypeError\<close>.
\<close>

definition lower_char :: "char \<Rightarrow> char" where
  "lower_char c =
     (if (65 :: nat) \<le> of_char c \<and> of_char c \<le> (90 :: nat)
      then char_of (of_char c + (32 :: nat)) else c)"

fun toLowerCase :: "string jsarg \<Rightarrow> js_error + string" where
  "toLowerCase Undefined = Inl TypeError"
| "toLowerCase Null = Inl TypeError"
| "toLowerCase (Val s) = Inr (map lower_char s)"

subsection \<open>\<open>calculateBodyAge\<close>\<close>

text \<open>
  The result is \<open>Inr Null\<close> when the function returns \<open>null\<close>, \<open>Inr (Val x)\<close> when it
  returns the number \<open>x\<close>, and \<open>Inl\<close> when it throws. The literals \<open>0\<close>, \<open>0.5\<close>, \<open>10\<close>,
  \<open>18\<close> and \<open>100\<close> are binary64 numbers; \<open>1.20\<close>, \<open>0.23\<close>, \<open>16.2\<close> and \<open>5.4\<close> are not,
  and denote what they are rounded to.
\<close>

definition calculateBodyAge ::
  "(real \<Rightarrow> jsnum) \<Rightarrow> jsnum jsarg \<Rightarrow> string jsarg \<Rightarrow> jsnum jsarg \<Rightarrow> jsnum jsarg
     \<Rightarrow> js_error + jsnum jsarg" where
  "calculateBodyAge rd age gender height weight =
     (if \<not> ToBoolean_num age \<or> \<not> ToBoolean_str gender \<or> \<not> ToBoolean_num height \<or>
         \<not> ToBoolean_num weight \<or> js_le (ToNumber height) (Fin 0) \<or>
         js_le (ToNumber weight) (Fin 0)
      then Inr Null
      else
        let heightInMeters = js_div rd (ToNumber height) (Fin 100);
            bmi = js_div rd (ToNumber weight) (js_mul rd heightInMeters heightInMeters)
        in case toLowerCase gender of
             Inl e \<Rightarrow> Inl e
           | Inr g \<Rightarrow>
               let bodyFat =
                     (if g = ''male''
                      then js_sub rd (js_add rd (js_mul rd (rd 1.20) bmi)
                             (js_mul rd (rd 0.23) (ToNumber age))) (rd 16.2)
                      else js_sub rd (js_add rd (js_mul rd (rd 1.20) bmi)
                             (js_mul rd (rd 0.23) (ToNumber age))) (rd 5.4));
                   bodyAgeRaw =
                     js_add rd (ToNumber age) (js_mul rd (js_sub rd bodyFat (Fin 18)) (Fin 0.5));
                   finalBodyAge = Math_max (Fin 0) bodyAgeRaw
               in Inr (Val (js_div rd (Math_round (js_mul rd finalBodyAge (Fin 10))) (Fin 10))))"

subsection \<open>The estimate in the words of its documentation\<close>

text \<open>
  The quantities the function's comments name, each computed in binary64 arithmetic:
  the body mass index of a height in centimetres and a weight; the body fat percentage
  by the male and by the female formula; the raw body age, which uses the male formula
  when the lower case of the gender is \<open>male\<close> and the female formula for every other
  gender; and rounding to one decimal place, \<open>Math.round(x * 10) / 10\<close>.
\<close>

definition bodyMassIndex :: "jsnum \<Rightarrow> jsnum \<Rightarrow> jsnum" where
  "bodyMassIndex height weight =
     js_div b64 weight (js_mul b64 (js_div b64 height (Fin 100)) (js_div b64 height (Fin 100)))"

definition bodyFatMale :: "jsnum \<Rightarrow> jsnum \<Rightarrow> jsnum" where
  "bodyFatMale bmi age =
     js_sub b64 (js_add b64 (js_mul b64 (b64 1.20) bmi) (js_mul b64 (b64 0.23) age)) (b64 16.2)"

definition bodyFatFemale :: "jsnum \<Rightarrow> jsnum \<Rightarrow> jsnum" where
  "bodyFatFemale bmi age =
     js_sub b64 (js_add b64 (js_mul b64 (b64 1.20) bmi) (js_mul b64 (b64 0.23) age)) (b64 5.4)"

definition bodyAgeRaw :: "jsnum \<Rightarrow> string \<Rightarrow> jsnum \<Rightarrow> jsnum \<Rightarrow> jsnum" where
  "bodyAgeRaw age gender height weight =
     (let bmi = bodyMassIndex height weight;
          bodyFat = (if map lower_char gender = ''male''
                     then bodyFatMale bmi age else bodyFatFemale bmi age)
      in js_add b64 age (js_mul b64 (js_sub b64 bodyFat (Fin 18)) (Fin 0.5)))"

definition round1 :: "jsnum \<Rightarrow> jsnum" where
  "round1 x = js_div b64 (Math_round (js_mul b64 x (Fin 10))) (Fin 10)"

section \<open>Example states\<close>

text \<open>
  The node \<open>NewNode\<close> makes when the random source delivers the bytes 0, 1, ..., 15;
  the program state right after; and the state once \<open>Start\<close> has been called and the
  \<open>Listen\<close> goroutine has bound its address.
\<close>

definition n0 :: "tcp_listener Node" where
  "n0 = \<lparr> node_ID = ''000102030405060708090a0b0c0d0e0f'',
          transport = \<lparr> listener = None, addr = '':8080'' \<rparr>,
          peers = Map.empty \<rparr>"

definition w0 :: "tcp_listener world" where
  "w0 = \<lparr> node = n0, goroutines = [], closed_conns = {} \<rparr>"

definition w1 :: "tcp_listener world" where
  "w1 = Listen_start (Inr ListenerOpen) (fst (Start w0))"

section \<open>Properties of the message envelope\<close>

text \<open>
  Claim C2, as the code has it. \<open>NewTextMessage\<close> has no maximum payload size and never
  fails: for every sender, recipient and content, of any length, it returns the text
  message with the identifier \<open>temp-id\<close>, the given sender and recipient, the time of
  the call and the bytes of the content as payload, and a \<open>nil\<close> error; it never
  returns \<open>InvalidPayload\<close>. \<open>ToJSON\<close> passes any message to the marshaller, with no
  check of its size.
\<close>

theorem NewTextMessage_always_succeeds:
  "NewTextMessage now from to content =
     Inr \<lparr> msg_ID = ''temp-id'', msg_Type = ''text'', msg_From = from, msg_To = to,
           msg_Timestamp = now, msg_Payload = bytes_of_string content \<rparr> \<and>
   NewTextMessage now from to content \<noteq> Inl InvalidPayload \<and>
   length (msg_Payload (projr (NewTextMessage now from to content))) = length content \<and>
   ToJSON json_Marshal (projr (NewTextMessage now from to content)) =
     json_Marshal (projr (NewTextMessage now from to content))"
  by (simp add: NewTextMessage_def TextMessage_def bytes_of_string_def ToJSON_def)

text \<open>
  Claim C2 as stated fails: with a maximum of four bytes, the five-byte content
  \<open>hello\<close> is over the limit, and creation does not fail with \<open>InvalidPayload\<close>.
\<close>

theorem NewTextMessage_oversize_counterexample:
  "(4 :: nat) < length (bytes_of_string ''hello'') \<and>
   NewTextMessage 0 ''a'' ''b'' ''hello'' \<noteq> Inl InvalidPayload"
  by (simp add: NewTextMessage_def bytes_of_string_def)

text \<open>
  Claim C3 at a concrete input: two messages created by the node \<open>n1\<close>, at different
  times, for different recipients and with different contents, are different messages
  with the same \<open>id\<close>.
\<close>

theorem NewTextMessage_ids_collide:
  "projr (NewTextMessage 1 ''n1'' ''n2'' ''hello'') \<noteq>
     projr (NewTextMessage 2 ''n1'' ''n3'' ''world'') \<and>
   msg_ID (projr (NewTextMessage 1 ''n1'' ''n2'' ''hello'')) =
     msg_ID (projr (NewTextMessage 2 ''n1'' ''n3'' ''world''))"
  by (simp add: NewTextMessage_def)

section \<open>Properties of the node\<close>

subsection \<open>The node identifier\<close>

lemma length_EncodeToString: "length (EncodeToString bs) = 2 * length bs"
  by (induction bs) simp_all

lemma high_nibble_less: "unat (drop_bit 4 (v :: byte)) < 16"
proof -
  have "unat (drop_bit 4 v) = drop_bit 4 (unat v)"
    by (simp add: unat_drop_bit_eq)
  then have "unat (drop_bit 4 v) = unat v div 2 ^ 4"
    by (simp only: drop_bit_eq_div)
  moreover have "unat v < 2 ^ 8"
    using unsigned_less [of v] by simp
  ultimately show ?thesis by simp
qed

lemma low_nibble_less: "unat ((v :: byte) AND 0x0f) < 16"
proof -
  have "unat (v AND 0x0f) \<le> unat (0x0f :: byte)"
    by (rule word_and_le1 [THEN word_le_nat_alt [THEN iffD1]])
  then show ?thesis by simp
qed

lemma hextable_nth: "i < 16 \<Longrightarrow> hextable ! i \<in> set hextable"
  by (rule nth_mem) (simp add: hextable_def)

lemma set_EncodeToString: "set (EncodeToString bs) \<subseteq> set hextable"
  by (induction bs) (simp_all add: hextable_nth high_nibble_less low_nibble_less)

lemma NewNode_Inr:
  "NewNode src = Inr n \<Longrightarrow>
     \<exists>f. src = Inr f \<and>
       n = \<lparr> node_ID = EncodeToString (map f [0..<16]),
             transport = \<lparr> listener = None, addr = '':8080'' \<rparr>,
             peers = Map.empty \<rparr>"
  by (cases src) (simp_all add: NewNode_def rand_Read_def NewTransport_def)

lemma NewNode_example: "NewNode (Inr of_nat) = Inr n0"
  by (simp add: NewNode_def rand_Read_def NewTransport_def n0_def hextable_def upt_rec)

text \<open>
  Claim C4. Whenever \<open>NewNode\<close> succeeds, the random source has delivered sixteen
  bytes (128 bits), the node's \<open>ID\<close> is their hexadecimal encoding, and so it is a
  string of 32 characters, each a hexadecimal digit.
\<close>

theorem NewNode_ID_hex:
  assumes "NewNode src = Inr n"
  shows "(\<exists>f. src = Inr f \<and> node_ID n = EncodeToString (map f [0..<16])) \<and>
     length (node_ID n) = 32 \<and> set (node_ID n) \<subseteq> set hextable"
proof -
  from assms obtain f where f: "src = Inr f"
    and n: "node_ID n = EncodeToString (map f [0..<16])"
    by (auto dest: NewNode_Inr)
  have "length (node_ID n) = 32"
    by (simp add: n length_EncodeToString)
  moreover have "set (node_ID n) \<subseteq> set hextable"
    unfolding n by (rule set_EncodeToString)
  ultimately show ?thesis using f n by blast
qed

theorem NewNode_ID_hex_witness:
  "NewNode (Inr of_nat) = Inr n0 \<and>
   length (node_ID n0) = 32 \<and> set (node_ID n0) \<subseteq> set hextable"
  using NewNode_ID_hex [OF NewNode_example] NewNode_example by blast

subsection \<open>Starting and stopping\<close>

text \<open>
  Claim C5, as the code has it. The node keeps no lifecycle state and \<open>Start\<close> never
  fails: every call, the first as well as a repeated one, returns \<open>nil\<close> and launches
  one more \<open>Listen\<close> goroutine, leaving the node as it was.
\<close>

theorem Start_never_fails:
  "snd (Start w) = None \<and>
   fst (Start w) = w\<lparr>goroutines := goroutines w @ [ListenTask]\<rparr> \<and>
   node (fst (Start w)) = node w \<and>
   snd (Start (fst (Start w))) = None"
  by (simp add: Start_def)

text \<open>
  Claim C5 as stated fails: the second \<open>Start\<close> on a freshly made node does not
  return \<open>AlreadyStarted\<close>.
\<close>

theorem Start_twice_counterexample:
  "snd (Start (fst (Start w0))) \<noteq> Some AlreadyStarted"
  by (simp add: Start_def)

text \<open>
  Claim C6, as the code has it. \<open>Stop\<close> returns what the transport's \<open>Close\<close>
  returns, and \<open>Close\<close> keeps no record of having been called. While the transport has
  no listener, \<open>Stop\<close> changes nothing and returns \<open>nil\<close>. Once it has one, every call
  closes the listener again and returns the listener's own result: the second of two
  calls returns what the listener answers to being closed a second time.
\<close>

theorem Stop_returns_listener_Close:
  "Stop lclose w =
     (case listener (transport (node w)) of
        None \<Rightarrow> (w, None)
      | Some l \<Rightarrow>
          (w\<lparr>node := (node w)\<lparr>transport :=
               (transport (node w))\<lparr>listener := Some (fst (lclose l))\<rparr>\<rparr>\<rparr>,
           snd (lclose l))) \<and>
   snd (Stop lclose (fst (Stop lclose w))) =
     (case listener (transport (node w)) of
        None \<Rightarrow> None
      | Some l \<Rightarrow> snd (lclose (fst (lclose l))))"
  by (simp add: Stop_def Close_def split: option.splits)

text \<open>
  Claim C6 as stated fails: on a started node whose transport is listening, the first
  \<open>Stop\<close> succeeds and the second returns an error.
\<close>

theorem Stop_twice_counterexample:
  "snd (Stop net_Close w1) = None \<and>
   snd (Stop net_Close (fst (Stop net_Close w1))) =
     Some (LibError ''use of closed network connection'')"
  by (simp add: w1_def w0_def n0_def Stop_def Close_def Start_def Listen_start_def
      Listen_bind_def)

subsection \<open>The peers map\<close>

lemma peers_step:
  "peers (node (fst (Start w))) = peers (node w)"
  "peers (node (fst (Stop lclose w))) = peers (node w)"
  "peers (node (Listen_start bound w)) = peers (node w)"
  "peers (node (Listen_accept accepted w)) = peers (node w)"
  "peers (node (handleConn c w)) = peers (node w)"
  by (simp_all add: Start_def Stop_def Close_def Listen_start_def Listen_bind_def
      Listen_accept_def handleConn_def split: option.splits sum.splits)

lemma reachable_w1: "reachable w1"
  unfolding w1_def w0_def
  by (rule reachable.listening, rule reachable.started, rule reachable.created,
      rule NewNode_example) (simp add: Start_def)

text \<open>
  Claim C8. In every state the program can reach, the node's peers map is empty.
\<close>

theorem peers_never_registered:
  "reachable w \<Longrightarrow> peers (node w) = Map.empty"
proof (induction rule: reachable.induct)
  case (created src n)
  then show ?case by (auto dest: NewNode_Inr)
qed (simp_all add: peers_step)

theorem peers_never_registered_witness:
  "reachable (handleConn 7 (Listen_accept (Inr 7) w1)) \<and>
   peers (node (handleConn 7 (Listen_accept (Inr 7) w1))) = Map.empty"
proof -
  have acc: "AcceptLoop \<in> set (goroutines w1)"
    by (simp add: w1_def w0_def Start_def Listen_start_def Listen_bind_def)
  have r2: "reachable (Listen_accept (Inr 7) w1)"
    by (rule reachable.accepting [OF reachable_w1 acc])
  have "HandleConn 7 \<in> set (goroutines (Listen_accept (Inr 7) w1))"
    by (simp add: Listen_accept_def)
  then have r3: "reachable (handleConn 7 (Listen_accept (Inr 7) w1))"
    by (rule reachable.handling [OF r2])
  from peers_never_registered [OF r3] r3 show ?thesis by blast
qed

section \<open>Properties of the body age estimator\<close>

subsection \<open>Rejected inputs\<close>

text \<open>
  Claim C9. \<open>calculateBodyAge\<close> returns \<open>null\<close> whenever one of \<open>age\<close>, \<open>height\<close> and
  \<open>weight\<close> is absent, \<open>NaN\<close> or zero, or \<open>gender\<close> is absent or the empty string, or
  \<open>height <= 0\<close> or \<open>weight <= 0\<close> holds; whatever the rounding of the arithmetic.
  The witness is an age of 0 with the other three arguments in order.
\<close>

theorem calculateBodyAge_rejects:
  assumes "age \<in> {Undefined, Null, Val NaN, Val (Fin 0)} \<or>
     gender \<in> {Undefined, Null, Val []} \<or>
     height \<in> {Undefined, Null, Val NaN, Val (Fin 0)} \<or>
     weight \<in> {Undefined, Null, Val NaN, Val (Fin 0)} \<or>
     js_le (ToNumber height) (Fin 0) \<or> js_le (ToNumber weight) (Fin 0)"
  shows "calculateBodyAge rd age gender height weight = Inr Null"
proof -
  from assms have "\<not> ToBoolean_num age \<or> \<not> ToBoolean_str gender \<or>
     \<not> ToBoolean_num height \<or> \<not> ToBoolean_num weight \<or>
     js_le (ToNumber height) (Fin 0) \<or> js_le (ToNumber weight) (Fin 0)"
    by auto
  then show ?thesis
    unfolding calculateBodyAge_def by (simp only: if_True)
qed

theorem calculateBodyAge_rejects_witness:
  "Val (Fin 0) \<in> {Undefined, Null, Val NaN, Val (Fin 0)} \<and>
   calculateBodyAge Fin (Val (Fin 0)) (Val ''female'') (Val (Fin 165)) (Val (Fin 60)) = Inr Null"
proof -
  have h: "Val (Fin 0) \<in> {Undefined, Null, Val NaN, Val (Fin 0)}" by simp
  from calculateBodyAge_rejects [OF disjI1, OF h] h show ?thesis by blast
qed

subsection \<open>Properties of the rounding\<close>

lemma round_half_even_bounds:
  "of_int \<lfloor>y\<rfloor> \<le> (of_int (round_half_even y) :: real)"
  "round_half_even y \<le> \<lfloor>y\<rfloor> + 1"
  by (simp_all add: round_half_even_def Let_def)

lemma round_half_even_nonneg: "0 \<le> y \<Longrightarrow> 0 \<le> round_half_even y"
  using round_half_even_bounds(1) [of y] by (simp add: round_half_even_def Let_def)

lemma round_half_even_le:
  assumes "y < 2 ^ 53"
  shows "(of_int (round_half_even y) :: real) \<le> 2 ^ 53"
proof -
  have "y < of_int (2 ^ 53)" using assms by simp
  then have "\<lfloor>y\<rfloor> < 2 ^ 53" by (simp only: floor_less_iff)
  then have "round_half_even y \<le> 2 ^ 53"
    using round_half_even_bounds(2) [of y] by linarith
  then have "(of_int (round_half_even y) :: real) \<le> of_int (2 ^ 53)"
    by (simp only: of_int_le_iff)
  then show ?thesis by simp
qed

text \<open>Scaling keeps the product, and stops with a magnitude below \<open>2 ^ 53\<close>.\<close>

lemma scale_down_inv:
  assumes "scale_down k m s = (m', s')" "0 \<le> m" "0 < s"
  shows "0 \<le> m' \<and> 0 < s' \<and> m' * s' = m * s \<and> (m' < 2 ^ 53 \<or> s' = s * 2 ^ k) \<and>
    (s' = s \<or> 2 ^ 52 \<le> m')"
  using assms
proof (induction k arbitrary: m s)
  case 0
  then show ?case by simp
next
  case (Suc k)
  show ?case
  proof (cases "2 ^ 53 \<le> m")
    case True
    with Suc.prems have rec: "scale_down k (m / 2) (s * 2) = (m', s')" by simp
    from Suc.IH [OF rec] Suc.prems
    have ih: "0 \<le> m'" "0 < s'" "m' * s' = m * s" "m' < 2 ^ 53 \<or> s' = s * 2 * 2 ^ k"
      "s' = s * 2 \<or> 2 ^ 52 \<le> m'"
      by simp_all
    have "2 ^ 52 \<le> m'"
    proof (rule disjE [OF ih(5)])
      assume "s' = s * 2"
      with ih(3) Suc.prems(3) have "m' = m / 2" by simp
      with True show ?thesis by simp
    qed
    with ih show ?thesis by (simp add: mult.assoc)
  next
    case False
    with Suc.prems show ?thesis by simp
  qed
qed

lemma scale_up_inv:
  assumes "scale_up k m s = (m', s')" "0 \<le> m" "0 < s" "m < 2 ^ 53"
  shows "0 \<le> m' \<and> 0 < s' \<and> m' * s' = m * s \<and> m' < 2 ^ 53 \<and> s' \<le> s"
  using assms
proof (induction k arbitrary: m s)
  case 0
  then show ?case by simp
next
  case (Suc k)
  show ?case
  proof (cases "m < 2 ^ 52")
    case True
    with Suc.prems have rec: "scale_up k (m * 2) (s / 2) = (m', s')" by simp
    have "m * 2 < 2 ^ 53" using True by simp
    from Suc.IH [OF rec _ _ this] Suc.prems show ?thesis by simp
  next
    case False
    with Suc.prems show ?thesis by simp
  qed
qed

lemma normalise_inv:
  assumes "normalise m = (m', s')" "0 \<le> m"
  shows "0 \<le> m'" "0 < s'" "m' * s' = m"
proof -
  have "0 \<le> m' \<and> 0 < s' \<and> m' * s' = m"
  proof (cases "2 ^ 53 \<le> m")
    case True
    with assms have "scale_down 972 m 1 = (m', s')" by (simp add: normalise_def)
    from scale_down_inv [OF this assms(2)] show ?thesis by simp
  next
    case False
    with assms have "scale_up 1074 m 1 = (m', s')" by (simp add: normalise_def)
    from scale_up_inv [OF this assms(2)] False show ?thesis by simp
  qed
  then show "0 \<le> m'" "0 < s'" "m' * s' = m" by simp_all
qed

text \<open>
  The rounding never yields \<open>NaN\<close>, rounds no real from 0 on to a negative number,
  and rounds every real of magnitude below \<open>2 ^ 1023\<close> to a finite number.
\<close>

lemma b64_not_NaN: "b64 x \<noteq> NaN"
  by (simp add: b64_def Let_def split: prod.splits)

lemma b64_nonneg:
  assumes "0 \<le> x"
  shows "js_le (Fin 0) (b64 x)"
proof (cases "x = 0")
  case True
  then show ?thesis by (simp add: b64_def)
next
  case False
  obtain m s where n: "normalise \<bar>x\<bar> = (m, s)" by (cases "normalise \<bar>x\<bar>")
  from normalise_inv [OF n] have "0 \<le> m" "0 < s" by simp_all
  then have "0 \<le> of_int (round_half_even m) * s"
    by (simp add: round_half_even_nonneg)
  with False assms n show ?thesis by (simp add: b64_def Let_def)
qed

lemma b64_finite:
  assumes "\<bar>x\<bar> < 2 ^ 1023"
  shows "\<exists>r. b64 x = Fin r"
proof (cases "x = 0")
  case True
  then show ?thesis by (simp add: b64_def)
next
  case False
  obtain m s where n: "normalise \<bar>x\<bar> = (m, s)" by (cases "normalise \<bar>x\<bar>")
  have "of_int (round_half_even m) * s < 2 ^ 1024"
  proof (cases "2 ^ 53 \<le> \<bar>x\<bar>")
    case True
    with n have "scale_down 972 \<bar>x\<bar> 1 = (m, s)" by (simp add: normalise_def)
    from scale_down_inv [OF this]
    have inv: "0 \<le> m" "0 < s" "m * s = \<bar>x\<bar>" "m < 2 ^ 53 \<or> s = 2 ^ 972" "s = 1 \<or> 2 ^ 52 \<le> m"
      by simp_all
    have m_hi: "m < 2 ^ 53"
    proof (rule ccontr)
      assume "\<not> m < 2 ^ 53"
      with inv(4) have "2 ^ 53 \<le> m" "s = 2 ^ 972" by simp_all
      then have "(2 ^ 53 :: real) * 2 ^ 972 \<le> m * s" by simp
      then have "(2 :: real) ^ 1025 \<le> \<bar>x\<bar>" by (simp add: inv(3) flip: power_add)
      moreover have "(2 :: real) ^ 1023 \<le> 2 ^ 1025" by (rule power_increasing) simp_all
      ultimately show False using assms by linarith
    qed
    have m_lo: "2 ^ 52 \<le> m"
    proof (rule disjE [OF inv(5)])
      assume "s = 1"
      with inv(3) True m_hi show ?thesis by simp
    qed
    have "2 ^ 52 * s \<le> m * s" using m_lo inv(2) by simp
    with inv(3) assms have "2 ^ 52 * s < 2 ^ 52 * 2 ^ 971" by (simp flip: power_add)
    then have s_hi: "s < 2 ^ 971" by simp
    have "of_int (round_half_even m) * s \<le> 2 ^ 53 * s"
      using round_half_even_le [OF m_hi] inv(2) by simp
    also have "\<dots> < 2 ^ 53 * 2 ^ 971" using s_hi by simp
    also have "\<dots> = 2 ^ 1024" by (simp flip: power_add)
    finally show ?thesis .
  next
    case False
    with n have "scale_up 1074 \<bar>x\<bar> 1 = (m, s)" by (simp add: normalise_def)
    from scale_up_inv [OF this] False
    have inv: "0 < s" "m < 2 ^ 53" "s \<le> 1" by simp_all
    have "of_int (round_half_even m) * s \<le> 2 ^ 53 * 1"
      using round_half_even_le [OF inv(2)] inv(1,3) by (intro mult_mono) simp_all
    also have "\<dots> < (2 :: real) ^ 1024" by (simp add: power_strict_increasing_iff)
    finally show ?thesis .
  qed
  with False n show ?thesis by (simp add: b64_def Let_def)
qed

text \<open>
  How a number between the subnormal ones and \<open>2 ^ 53\<close> is rounded, once the number
  \<open>k\<close> of doublings that bring its magnitude into the range from \<open>2 ^ 52\<close> to \<open>2 ^ 53\<close>
  is known.
\<close>

lemma scale_up_steps:
  "k \<le> n \<Longrightarrow> 2 ^ 52 \<le> m * 2 ^ k \<Longrightarrow> m * 2 ^ k < 2 ^ 53 \<Longrightarrow>
     scale_up n m s = (m * 2 ^ k, s / 2 ^ k)"
proof (induction k arbitrary: n m s)
  case 0
  then show ?case by (cases n) simp_all
next
  case (Suc k)
  then obtain n' where n: "n = Suc n'" "k \<le> n'" by (cases n) simp_all
  have pos: "0 < m"
  proof (rule ccontr)
    assume "\<not> 0 < m"
    then have "m * 2 ^ Suc k \<le> 0" by (simp add: mult_le_0_iff)
    with Suc.prems(2) show False by simp
  qed
  have "m * 2 ^ k < 2 ^ 52" using Suc.prems(3) by simp
  moreover have "m * 1 \<le> m * 2 ^ k" using pos by (intro mult_left_mono) simp_all
  ultimately have small: "m < 2 ^ 52" by simp
  have "scale_up n' (m * 2) (s / 2) = (m * 2 * 2 ^ k, s / 2 / 2 ^ k)"
    using Suc.prems by (intro Suc.IH n) (simp_all add: mult.assoc)
  with small n show ?case by (simp add: mult.assoc)
qed

lemma b64_normal:
  assumes "2 ^ 52 \<le> \<bar>x\<bar> * 2 ^ k" "\<bar>x\<bar> * 2 ^ k < 2 ^ 53" "k \<le> 1074"
  shows "b64 x =
    Fin ((if 0 < x then 1 else - 1) * of_int (round_half_even (\<bar>x\<bar> * 2 ^ k)) / 2 ^ k)"
proof -
  have nz: "x \<noteq> 0" using assms(1) by auto
  have "\<bar>x\<bar> * 1 \<le> \<bar>x\<bar> * 2 ^ k" by (intro mult_left_mono) simp_all
  with assms(2) have "\<not> 2 ^ 53 \<le> \<bar>x\<bar>" by simp
  then have n: "normalise \<bar>x\<bar> = (\<bar>x\<bar> * 2 ^ k, 1 / 2 ^ k)"
    using scale_up_steps [OF assms(3,1,2), of 1] by (simp add: normalise_def)
  have "of_int (round_half_even (\<bar>x\<bar> * 2 ^ k)) * (1 / 2 ^ k) \<le> 2 ^ 53 * (1 :: real)"
    using round_half_even_le [OF assms(2)] round_half_even_nonneg [of "\<bar>x\<bar> * 2 ^ k"]
    by (intro mult_mono) (simp_all add: divide_le_eq)
  also have "\<dots> < (2 :: real) ^ 1024" by (simp add: power_strict_increasing_iff)
  finally show ?thesis using nz n by (simp add: b64_def Let_def)
qed

text \<open>The binary64 numbers that the four decimal literals of the function denote.\<close>

lemma b64_literals:
  "b64 (6 / 5) = Fin (5404319552844595 / 4503599627370496)"
  "b64 (23 / 100) = Fin (8286623314361713 / 36028797018963968)"
  "b64 (81 / 5) = Fin (4559894622712627 / 281474976710656)"
  "b64 (27 / 5) = Fin (3039929748475085 / 562949953421312)"
  by (simp_all add: b64_normal [where k = 52] b64_normal [where k = 55]
      b64_normal [where k = 48] b64_normal [where k = 50] round_half_even_def)

subsection \<open>Accepted inputs\<close>

text \<open>Numbers that are not negative: \<open>+\<infinity>\<close> and the finite ones from 0 on.\<close>

lemma nonneg_cases:
  assumes "js_le (Fin 0) y"
  obtains "y = PInf" | r where "y = Fin r" "0 \<le> r"
  using assms by (cases y) simp_all

lemma js_le_zero_not_NaN: "js_le (Fin 0) y \<Longrightarrow> y \<noteq> NaN"
  by (cases y) simp_all

lemma Math_max_zero_nonneg: "x \<noteq> NaN \<Longrightarrow> js_le (Fin 0) (Math_max (Fin 0) x)"
  by (cases x) simp_all

text \<open>Operations that keep a number from being \<open>NaN\<close>.\<close>

lemma js_add_Fin_right: "x \<noteq> NaN \<Longrightarrow> js_add b64 x (Fin b) \<noteq> NaN"
  by (cases x) (simp_all add: b64_not_NaN)

lemma js_add_Fin_left: "y \<noteq> NaN \<Longrightarrow> js_add b64 (Fin a) y \<noteq> NaN"
  by (cases y) (simp_all add: b64_not_NaN)

lemma js_mul_half: "x \<noteq> NaN \<Longrightarrow> js_mul b64 x (Fin (1 / 2)) \<noteq> NaN"
  by (cases x) (simp_all add: b64_not_NaN)

text \<open>The body mass index of a positive height and weight is not negative.\<close>

lemma bodyMassIndex_nonneg:
  assumes "0 < h" "0 < w"
  shows "js_le (Fin 0) (bodyMassIndex (Fin h) (Fin w))"
proof -
  have "js_le (Fin 0) (b64 (h / 100))"
    using assms by (intro b64_nonneg) simp_all
  then show ?thesis
  proof (cases "b64 (h / 100)")
    case PInf
    then show ?thesis by (simp add: bodyMassIndex_def)
  next
    case (Fin m)
    have sq: "js_le (Fin 0) (b64 (m * m))"
      by (intro b64_nonneg) simp_all
    then show ?thesis
    proof (cases "b64 (m * m)")
      case PInf
      with Fin show ?thesis by (simp add: bodyMassIndex_def)
    next
      case inner: (Fin q)
      with sq have "0 \<le> q" by simp
      then have "js_le (Fin 0) (b64 (w / q))"
        using assms(2) by (intro b64_nonneg) simp_all
      with Fin inner assms(2) show ?thesis by (simp add: bodyMassIndex_def)
    qed simp_all
  qed simp_all
qed

text \<open>
  The two products of the body fat formulas: the first is not negative, the second is
  finite for every finite age.
\<close>

lemma fat_term_nonneg:
  assumes "js_le (Fin 0) bmi"
  shows "js_le (Fin 0) (js_mul b64 (b64 1.20) bmi)"
  using assms by (rule nonneg_cases) (simp_all add: b64_literals b64_nonneg)

lemma age_term_finite:
  assumes "\<bar>a\<bar> < 2 ^ 1024"
  shows "\<exists>t. js_mul b64 (b64 0.23) (Fin a) = Fin t"
proof -
  define c :: real where "c = 8286623314361713 / 36028797018963968"
  have c: "0 \<le> c" "c \<le> 1 / 2" by (simp_all add: c_def)
  have "\<bar>c * a\<bar> = c * \<bar>a\<bar>" using c(1) by (simp add: abs_mult)
  also have "\<dots> \<le> 1 / 2 * \<bar>a\<bar>" using c(2) by (intro mult_right_mono) simp_all
  also have "\<dots> < 1 / 2 * 2 ^ 1024" using assms by simp
  also have "\<dots> = (2 :: real) ^ 1023" by simp
  finally obtain t where "b64 (c * a) = Fin t"
    using b64_finite by blast
  then show ?thesis by (simp add: b64_literals c_def)
qed

lemma js_sub_add_not_NaN: "x \<noteq> NaN \<Longrightarrow> js_sub b64 (js_add b64 x (Fin t)) (Fin c) \<noteq> NaN"
  by (simp add: js_sub_def js_add_Fin_right)

lemma bodyFat_not_NaN:
  assumes "\<bar>a\<bar> < 2 ^ 1024" "0 < h" "0 < w"
  shows "bodyFatMale (bodyMassIndex (Fin h) (Fin w)) (Fin a) \<noteq> NaN"
    "bodyFatFemale (bodyMassIndex (Fin h) (Fin w)) (Fin a) \<noteq> NaN"
proof -
  obtain t where t: "js_mul b64 (b64 0.23) (Fin a) = Fin t"
    using age_term_finite [OF assms(1)] by blast
  have c: "b64 16.2 = Fin (4559894622712627 / 281474976710656)"
    and d: "b64 5.4 = Fin (3039929748475085 / 562949953421312)"
    using b64_literals(3,4) by simp_all
  have x: "js_mul b64 (b64 1.20) (bodyMassIndex (Fin h) (Fin w)) \<noteq> NaN"
    by (intro js_le_zero_not_NaN fat_term_nonneg bodyMassIndex_nonneg assms)
  show "bodyFatMale (bodyMassIndex (Fin h) (Fin w)) (Fin a) \<noteq> NaN"
    unfolding bodyFatMale_def t c by (rule js_sub_add_not_NaN [OF x])
  show "bodyFatFemale (bodyMassIndex (Fin h) (Fin w)) (Fin a) \<noteq> NaN"
    unfolding bodyFatFemale_def t d by (rule js_sub_add_not_NaN [OF x])
qed

lemma bodyAgeRaw_not_NaN:
  assumes "\<bar>a\<bar> < 2 ^ 1024" "0 < h" "0 < w"
  shows "bodyAgeRaw (Fin a) g (Fin h) (Fin w) \<noteq> NaN"
proof -
  define bodyFat where "bodyFat =
    (if map lower_char g = ''male'' then bodyFatMale (bodyMassIndex (Fin h) (Fin w)) (Fin a)
     else bodyFatFemale (bodyMassIndex (Fin h) (Fin w)) (Fin a))"
  have "bodyFat \<noteq> NaN"
    using bodyFat_not_NaN [OF assms] by (simp add: bodyFat_def)
  then have "js_add b64 (Fin a) (js_mul b64 (js_add b64 bodyFat (Fin (- 18))) (Fin (1 / 2))) \<noteq> NaN"
    by (intro js_add_Fin_left js_mul_half js_add_Fin_right)
  then show ?thesis
    by (simp add: bodyAgeRaw_def Let_def bodyFat_def js_sub_def)
qed

text \<open>Rounding to one decimal place, of a number that is not negative.\<close>

lemma round1_decimal:
  assumes "js_le (Fin 0) y"
  shows "round1 y = PInf \<or> (\<exists>n. 0 \<le> n \<and> round1 y = b64 (of_int n / 10))"
  using assms
proof (rule nonneg_cases)
  assume "y = PInf"
  then show ?thesis by (simp add: round1_def)
next
  fix r assume y: "y = Fin r" "0 \<le> r"
  then have "js_le (Fin 0) (b64 (r * 10))" by (intro b64_nonneg) simp
  then show ?thesis
  proof (rule nonneg_cases)
    assume "b64 (r * 10) = PInf"
    with y show ?thesis by (simp add: round1_def)
  next
    fix v assume v: "b64 (r * 10) = Fin v" "0 \<le> v"
    then have "0 \<le> \<lfloor>v + 1 / 2\<rfloor>" by simp
    moreover have "round1 y = b64 (of_int \<lfloor>v + 1 / 2\<rfloor> / 10)"
      using y v by (simp add: round1_def)
    ultimately show ?thesis by blast
  qed
qed

lemma round1_nonneg:
  assumes "js_le (Fin 0) y"
  shows "js_le (Fin 0) (round1 y)"
proof (rule disjE [OF round1_decimal [OF assms]])
  assume "round1 y = PInf"
  then show ?thesis by simp
next
  assume "\<exists>n. 0 \<le> n \<and> round1 y = b64 (of_int n / 10)"
  then obtain n :: int where "0 \<le> n" "round1 y = b64 (of_int n / 10)" by blast
  then show ?thesis by (simp add: b64_nonneg)
qed

text \<open>The function computes the estimate of its documentation.\<close>

lemma calculateBodyAge_value:
  assumes "a \<noteq> 0" "g \<noteq> []" "0 < h" "0 < w"
  shows "calculateBodyAge b64 (Val (Fin a)) (Val g) (Val (Fin h)) (Val (Fin w)) =
     Inr (Val (round1 (Math_max (Fin 0) (bodyAgeRaw (Fin a) g (Fin h) (Fin w)))))"
  using assms
  by (simp add: calculateBodyAge_def Let_def round1_def bodyAgeRaw_def bodyMassIndex_def
      bodyFatMale_def bodyFatFemale_def del: Math_max.simps)

text \<open>
  Claim C10, for finite arguments. Let the age be a finite number other than zero, the
  gender a string that is not empty, and height and weight finite and positive. Then
  \<open>calculateBodyAge\<close>, run in binary64 arithmetic, returns the raw body age
  \<open>age + (bodyFat - 18) * 0.5\<close>, clamped at 0 and rounded to one decimal place, where
  the body fat of every gender whose lower case is not \<open>male\<close> is computed by the female
  formula. The value returned is not negative, and it is \<open>+\<infinity>\<close> or the binary64 number
  nearest to a tenth of a natural number.
\<close>

theorem calculateBodyAge_accepted:
  assumes "a \<noteq> 0" "\<bar>a\<bar> < 2 ^ 1024" "g \<noteq> []" "0 < h" "0 < w"
  shows "calculateBodyAge b64 (Val (Fin a)) (Val g) (Val (Fin h)) (Val (Fin w)) =
       Inr (Val (round1 (Math_max (Fin 0) (bodyAgeRaw (Fin a) g (Fin h) (Fin w))))) \<and>
     js_le (Fin 0) (round1 (Math_max (Fin 0) (bodyAgeRaw (Fin a) g (Fin h) (Fin w)))) \<and>
     (round1 (Math_max (Fin 0) (bodyAgeRaw (Fin a) g (Fin h) (Fin w))) = PInf \<or>
      (\<exists>n. 0 \<le> n \<and>
         round1 (Math_max (Fin 0) (bodyAgeRaw (Fin a) g (Fin h) (Fin w))) = b64 (of_int n / 10)))"
proof -
  have "bodyAgeRaw (Fin a) g (Fin h) (Fin w) \<noteq> NaN"
    by (rule bodyAgeRaw_not_NaN [OF assms(2,4,5)])
  then have m: "js_le (Fin 0) (Math_max (Fin 0) (bodyAgeRaw (Fin a) g (Fin h) (Fin w)))"
    by (rule Math_max_zero_nonneg)
  show ?thesis
    using calculateBodyAge_value [OF assms(1,3,4,5)] round1_nonneg [OF m] round1_decimal [OF m]
    by (simp only: simp_thms)
qed

text \<open>
  The witness is an age of 20, the gender \<open>male\<close>, a height of 160 and a weight of 80.
  The raw body age is the binary64 number just below 23.95, so the function returns the
  binary64 number nearest to 23.9.
\<close>

lemmas b64_at = b64_normal [where k = 45] b64_normal [where k = 47] b64_normal [where k = 48]
  b64_normal [where k = 50] b64_normal [where k = 51] b64_normal [where k = 52]
  b64_normal [where k = 55]

lemma bodyMassIndex_example:
  "bodyMassIndex (Fin 160) (Fin 80) = Fin (4398046511103999 / 140737488355328)"
  by (simp add: bodyMassIndex_def b64_at round_half_even_def)

lemma bodyFatMale_example:
  "bodyFatMale (Fin (4398046511103999 / 140737488355328)) (Fin 20) =
     Fin (7290201896805989 / 281474976710656)"
  by (simp add: bodyFatMale_def js_sub_def b64_at round_half_even_def)

lemma bodyAgeRaw_example:
  "bodyAgeRaw (Fin 20) ''male'' (Fin 160) (Fin 80) = Fin (3370662846110105 / 140737488355328)"
  by (simp add: bodyAgeRaw_def bodyMassIndex_example bodyFatMale_example lower_char_def
      js_sub_def b64_at round_half_even_def)

lemma round1_example:
  "round1 (Math_max (Fin 0) (Fin (3370662846110105 / 140737488355328))) =
     Fin (3363625971692339 / 140737488355328)"
  by (simp add: round1_def b64_at round_half_even_def)

lemma b64_example: "b64 (239 / 10) = Fin (3363625971692339 / 140737488355328)"
  by (simp add: b64_at round_half_even_def)

theorem calculateBodyAge_accepted_witness:
  "(20 :: real) \<noteq> 0 \<and> \<bar>20 :: real\<bar> < 2 ^ 1024 \<and> ''male'' \<noteq> [] \<and>
   (0 :: real) < 160 \<and> (0 :: real) < 80 \<and>
   calculateBodyAge b64 (Val (Fin 20)) (Val ''male'') (Val (Fin 160)) (Val (Fin 80)) =
     Inr (Val (b64 (239 / 10))) \<and>
   b64 (239 / 10) = Fin (3363625971692339 / 140737488355328) \<and>
   js_le (Fin 0) (b64 (239 / 10))"
proof -
  have "calculateBodyAge b64 (Val (Fin 20)) (Val ''male'') (Val (Fin 160)) (Val (Fin 80)) =
     Inr (Val (round1 (Math_max (Fin 0) (bodyAgeRaw (Fin 20) ''male'' (Fin 160) (Fin 80)))))"
    using calculateBodyAge_accepted [of 20 "''male''" 160 80] by simp
  then have "calculateBodyAge b64 (Val (Fin 20)) (Val ''male'') (Val (Fin 160)) (Val (Fin 80)) =
     Inr (Val (b64 (239 / 10)))"
    by (simp only: bodyAgeRaw_example round1_example b64_example)
  then show ?thesis
    by (simp add: b64_example)
qed

text \<open>
  The rounding decides the value: in exact arithmetic the raw body age at this input
  is 23.95, and the result would be 24.
\<close>

lemma calculateBodyAge_exact_arithmetic:
  "calculateBodyAge Fin (Val (Fin 20)) (Val ''male'') (Val (Fin 160)) (Val (Fin 80)) =
     Inr (Val (Fin 24))"
  by (simp add: calculateBodyAge_def lower_char_def js_sub_def Let_def)

text \<open>
  An infinite height and weight pass the guard, and the body mass index is then
  \<open>\<infinity> / \<infinity>\<close>: the function returns \<open>NaN\<close>, whatever the rounding.
\<close>

lemma js_mul_NaN_right: "js_mul rd x NaN = NaN"
  by (cases x) simp_all

lemma calculateBodyAge_infinite:
  "calculateBodyAge rd (Val (Fin 30)) (Val ''male'') (Val PInf) (Val PInf) = Inr (Val NaN)"
  by (simp add: calculateBodyAge_def lower_char_def js_sub_def Let_def js_mul_NaN_right)

text \<open>
  Claim C10 as stated fails: an age of 30, the gender \<open>male\<close> and an infinite height
  and weight are all truthy, height and weight are not \<open><= 0\<close>, and the function
  returns \<open>NaN\<close>, which is not a number from 0 on.
\<close>

theorem calculateBodyAge_NaN_counterexample:
  "ToBoolean_num (Val (Fin 30)) \<and> ToBoolean_str (Val ''male'') \<and> ToBoolean_num (Val PInf) \<and>
   \<not> js_le (ToNumber (Val PInf)) (Fin 0) \<and>
   calculateBodyAge b64 (Val (Fin 30)) (Val ''male'') (Val PInf) (Val PInf) = Inr (Val NaN) \<and>
   \<not> js_le (Fin 0) NaN"
  by (simp add: calculateBodyAge_infinite)

end
